theory Spec2Isabelle
  imports Main
begin

section \<open>JavaScript values read from a notification\<close>

text \<open>
  The worker reads string values out of the object that the XML parser builds, where every
  element is an array of its occurrences. A property that is missing reads as
  \<open>undefined\<close>; indexing \<open>undefined\<close> throws a TypeError; indexing an empty
  array gives \<open>undefined\<close>. Strings are sequences of code units.
\<close>

datatype jsval = Undefined | Null | Str string

datatype error =
    TypeError
  | XmlParseError
  | TokenError
  | DocumentError
  | BreakTest
  | FsError
  | SaveDocError
  | JobProcessError
  | LifxError

text \<open>Truthiness of a value: \<open>undefined\<close>, \<open>null\<close> and the empty string are falsy.\<close>

fun truthy :: "jsval \<Rightarrow> bool" where
  "truthy Undefined = False"
| "truthy Null = False"
| "truthy (Str s) = (s \<noteq> [])"

text \<open>The comparison \<open>v == "text"\<close> of a parsed value with a string constant.\<close>

fun js_eq :: "jsval \<Rightarrow> string \<Rightarrow> bool" where
  "js_eq (Str s) t = (s = t)"
| "js_eq Undefined t = False"
| "js_eq Null t = False"

text \<open>String conversion, as in a template literal or \<open>"" + v\<close>.\<close>

fun to_str :: "jsval \<Rightarrow> string" where
  "to_str (Str s) = s"
| "to_str Undefined = ''undefined''"
| "to_str Null = ''null''"

text \<open>\<open>prop[0]\<close> on an optional array property.\<close>

fun idx0 :: "string list option \<Rightarrow> error + jsval" where
  "idx0 None = Inl TypeError"
| "idx0 (Some []) = Inr Undefined"
| "idx0 (Some (x # xs)) = Inr (Str x)"

section \<open>Strings\<close>

text \<open>The regular-expression class \<open>\w\<close>: ASCII letters, digits and the underscore.\<close>

definition is_word_char :: "char \<Rightarrow> bool" where
  "is_word_char c =
     (c \<in> set ''ABCDEFGHIJKLMNOPQRSTUVWXYZabcdefghijklmnopqrstuvwxyz0123456789_'')"

text \<open>\<open>orderNumber.replace(/\W/g, '_')\<close>: every character outside \<open>\w\<close> becomes \<open>_\<close>.\<close>

primrec sanitize :: "string \<Rightarrow> string" where
  "sanitize [] = []"
| "sanitize (c # cs) = (if is_word_char c then c else CHR ''_'') # sanitize cs"

text \<open>\<open>s.startsWith(sub)\<close> and \<open>s.includes(sub)\<close>.\<close>

definition starts_with :: "string \<Rightarrow> string \<Rightarrow> bool" where
  "starts_with s sub = (take (length sub) s = sub)"

fun str_includes :: "string \<Rightarrow> string \<Rightarrow> bool" where
  "str_includes [] sub = (sub = [])"
| "str_includes (c # cs) sub = (starts_with (c # cs) sub \<or> str_includes cs sub)"

text \<open>Decimal rendering of a loop index, as the template \<open>`test${i}.txt`\<close> does.\<close>

definition digit_char :: "nat \<Rightarrow> char" where
  "digit_char d = ''0123456789'' ! d"

fun string_of_nat :: "nat \<Rightarrow> string" where
  "string_of_nat n =
     (if n < 10 then [digit_char n] else string_of_nat (n div 10) @ [digit_char (n mod 10)])"

declare string_of_nat.simps [simp del]

section \<open>Paths\<close>

text \<open>
  The POSIX functions of Node's \<open>path\<close> module. A path is cut into the segments between
  its separators; \<open>normalizeString\<close> walks the segments with the segments kept so far
  (the last one first): empty and \<open>.\<close> segments are dropped, \<open>..\<close> removes the
  segment before it, and is kept only at the start of a relative path.
\<close>

fun split_path :: "string \<Rightarrow> string list" where
  "split_path [] = [[]]"
| "split_path (c # cs) =
     (if c = CHR ''/'' then [] # split_path cs
      else (case split_path cs of [] \<Rightarrow> [[c]] | s # ss \<Rightarrow> (c # s) # ss))"

fun join_segments :: "string list \<Rightarrow> string" where
  "join_segments [] = []"
| "join_segments [s] = s"
| "join_segments (s # t # ss) = s @ ''/'' @ join_segments (t # ss)"

fun normalizeString :: "bool \<Rightarrow> string list \<Rightarrow> string list \<Rightarrow> string list" where
  "normalizeString allowAboveRoot res [] = res"
| "normalizeString allowAboveRoot res (s # ss) =
     (if s = [] \<or> s = ''.'' then normalizeString allowAboveRoot res ss
      else if s = ''..'' then
        (case res of
           r # rs \<Rightarrow>
             if r \<noteq> ''..'' then normalizeString allowAboveRoot rs ss
             else normalizeString allowAboveRoot (if allowAboveRoot then s # res else res) ss
         | [] \<Rightarrow> normalizeString allowAboveRoot (if allowAboveRoot then [s] else []) ss)
      else normalizeString allowAboveRoot (s # res) ss)"

definition normalize :: "string \<Rightarrow> string" where
  "normalize path =
     (if path = [] then ''.''
      else
        let isAbsolute = (hd path = CHR ''/'');
            trailingSeparator = (last path = CHR ''/'');
            p = join_segments (rev (normalizeString (\<not> isAbsolute) [] (split_path path)))
        in if p = [] then (if isAbsolute then ''/'' else if trailingSeparator then ''./'' else ''.'')
           else (if isAbsolute then ''/'' else []) @ p @ (if trailingSeparator then ''/'' else []))"

text \<open>\<open>path.join(dir, name)\<close>: the non-empty arguments joined by a separator, normalized.\<close>

definition path_join :: "string \<Rightarrow> string \<Rightarrow> string" where
  "path_join dir name =
     (if dir = [] then (if name = [] then ''.'' else normalize name)
      else if name = [] then normalize dir
      else normalize (dir @ ''/'' @ name))"

text \<open>
  The directory that holds the entry named by a path: the path without its last segment,
  \<open>.\<close> for a bare name.
\<close>

definition parent_dir :: "string \<Rightarrow> string" where
  "parent_dir p =
     (if CHR ''/'' \<notin> set p then ''.''
      else
        let d = rev (drop 1 (dropWhile (\<lambda>c. c \<noteq> CHR ''/'') (rev p)))
        in if d = [] then ''/'' else d)"

text \<open>
  A name that \<open>path.join\<close> keeps as the last segment of its result: no separator in it,
  and not empty, \<open>.\<close> or \<open>..\<close>. What comes before the name then depends on
  the directory alone.
\<close>

definition simple_name :: "string \<Rightarrow> bool" where
  "simple_name name = (CHR ''/'' \<notin> set name \<and> name \<noteq> [] \<and> name \<noteq> ''.'' \<and> name \<noteq> ''..'')"

definition dir_prefix :: "string \<Rightarrow> string" where
  "dir_prefix dir =
     (let isAbsolute = (dir \<noteq> [] \<and> hd dir = CHR ''/'');
          st = normalizeString (\<not> isAbsolute) [] (split_path dir)
      in (if isAbsolute then ''/'' else [])
           @ (if st = [] then [] else join_segments (rev st) @ ''/''))"

section \<open>Configuration\<close>

text \<open>
  The settings of \<open>ds_configuration.js\<close> that the worker reads. \<open>outputDir\<close> and
  \<open>testOutputDir\<close> stand for the two directory paths computed once when the module is
  loaded.
\<close>

record config =
  debug :: bool
  envelopeCustomField :: string
  envelopeColorCustomField :: string
  outputFilePefix :: string
  outputDir :: string
  testOutputDir :: string
  enableBreakTest :: bool
  lifxAccessToken :: jsval
  lifxSelector :: string
  clientId :: jsval
  authServer :: string
  oAuthConsentRedirectURI :: string

section \<open>The parsed notification\<close>

record custom_field =
  Name :: "string list option"
  Value :: "string list option"

record envelope_status =
  EnvelopeID :: "string list option"
  Created :: "string list option"
  Status :: "string list option"
  Completed :: "string list option"
  Subject :: "string list option"
  UserName :: "string list option"
  Email :: "string list option"
  CustomFields :: "custom_field list option list option"

record envelope_information =
  EnvelopeStatus :: "envelope_status list option"

record parsed_xml =
  DocuSignEnvelopeInformation :: "envelope_information option"

text \<open>The XML text of a message, given by what the XML parser makes of it.\<close>

datatype xml_outcome = XmlError | XmlParsed parsed_xml

text \<open>The constants that \<open>process\<close> binds in its first step.\<close>

record notification =
  envelopeId :: jsval
  created :: jsval
  status :: jsval
  completedMsg :: string
  subject :: jsval
  senderName :: jsval
  senderEmail :: jsval
  orderNumber :: jsval
  lightColor :: jsval

section \<open>The world: files, remote services, and what the worker did\<close>

datatype log_msg =
    LogProcessing string
  | LogBadBody string
  | LogAckError
  | LogNotification notification
  | LogIgnoredStatus jsval
  | LogIgnoredNoField string
  | LogSaveDocError jsval jsval error
  | LogBreaking
  | LogTestValue string
  | LogNeedConfig
  | LogConsentRequired string
  | LogApiProblem int jsval

text \<open>
  The calls the worker makes on its collaborators, in order. \<open>Ack\<close> and \<open>Nack\<close> are the
  two acknowledgement calls a queue message offers.
\<close>

datatype event =
    Log log_msg
  | Ack
  | Nack
  | CheckToken
  | GetDocument jsval
  | LifxPut string jsval

text \<open>
  The answer of \<open>dsJwtAuth.checkToken\<close>: success, a rejection carrying an API response
  (its status code and the \<open>error\<close> member of its body), or any other rejection.
\<close>

datatype token_check = TokenOk | TokenApiError int jsval | TokenFailure

text \<open>
  \<open>checkToken\<close>, \<open>documents\<close> and \<open>lifx_ok\<close> say how the remote services answer;
  \<open>documents\<close> gives the combined document of an envelope, or nothing when the
  download fails. \<open>dirs\<close> and \<open>files\<close> are the directories and the files that exist,
  by path. \<open>io_fault\<close> says which calls the operating system refuses for a reason that
  the directories and files do not show (permissions, a full disk).
\<close>

datatype fs_call = Mkdir string | WriteFile string

record world =
  dirs :: "string set"
  files :: "string \<rightharpoonup> string"
  io_fault :: "fs_call \<Rightarrow> bool"
  trace :: "event list"
  checkToken :: token_check
  documents :: "jsval \<Rightarrow> string option"
  lifx_ok :: bool

definition emit :: "event \<Rightarrow> world \<Rightarrow> world" where
  "emit e w = w\<lparr>trace := trace w @ [e]\<rparr>"

text \<open>\<open>fse.exists\<close>: something, a directory or a file, has this path.\<close>

definition fse_exists :: "string \<Rightarrow> world \<Rightarrow> bool" where
  "fse_exists p w = (p \<in> dirs w \<or> files w p \<noteq> None)"

text \<open>
  \<open>fse.mkdir\<close> makes one directory. It does not make missing parents: it rejects when
  the parent directory does not exist, when the path is taken, or when the system refuses.
\<close>

definition mkdir :: "string \<Rightarrow> world \<Rightarrow> (error + unit) \<times> world" where
  "mkdir d w =
     (if io_fault w (Mkdir d) \<or> parent_dir d \<notin> dirs w \<or> fse_exists d w
      then (Inl FsError, w)
      else (Inr (), w\<lparr>dirs := insert d (dirs w)\<rparr>))"

text \<open>
  \<open>fse.writeFile\<close> replaces the content of the file. It rejects when the directory of
  the file does not exist, when the path is a directory, or when the system refuses.
\<close>

definition writeFile :: "string \<Rightarrow> string \<Rightarrow> world \<Rightarrow> (error + unit) \<times> world" where
  "writeFile p content w =
     (if io_fault w (WriteFile p) \<or> parent_dir p \<notin> dirs w \<or> p \<in> dirs w
      then (Inl FsError, w)
      else (Inr (), w\<lparr>files := (files w)(p \<mapsto> content)\<rparr>))"

text \<open>
  The two statements that both \<open>saveDoc\<close> and \<open>processTest\<close> use to create their
  directory "if need be": \<open>fse.exists\<close>, then \<open>fse.mkdir\<close> when it says no.
\<close>

definition ensure_dir :: "string \<Rightarrow> world \<Rightarrow> (error + unit) \<times> world" where
  "ensure_dir d w = (if fse_exists d w then (Inr (), w) else mkdir d w)"

text \<open>\<open>fse.renameSync\<close> throws when the old file does not exist.\<close>

definition renameSync :: "string \<Rightarrow> string \<Rightarrow> world \<Rightarrow> bool \<times> world" where
  "renameSync oldPath newPath w =
     (case files w oldPath of
        None \<Rightarrow> (False, w)
      | Some content \<Rightarrow> (True, w\<lparr>files := (files w)(oldPath := None, newPath \<mapsto> content)\<rparr>))"

text \<open>How a call of the worker ends: it returns, its promise rejects, or the process exits.\<close>

datatype outcome = Returned | Rejected error | Exited int

text \<open>
  \<open>process.exit(code)\<close>. Without an argument the exit status is \<open>process.exitCode\<close>,
  which this program never assigns, so it is the success status 0.
\<close>

fun process_exit :: "int option \<Rightarrow> outcome" where
  "process_exit None = Exited 0"
| "process_exit (Some code) = Exited code"

section \<open>Reading the custom fields\<close>

text \<open>\<open>envelopeStatus.CustomFields[0].CustomField\<close>, the array that \<open>find\<close> is called on.\<close>

definition customFields_of :: "envelope_status \<Rightarrow> error + custom_field list" where
  "customFields_of es =
     (case CustomFields es of
        None \<Rightarrow> Inl TypeError
      | Some [] \<Rightarrow> Inl TypeError
      | Some (None # _) \<Rightarrow> Inl TypeError
      | Some (Some cfs # _) \<Rightarrow> Inr cfs)"

text \<open>
  \<open>customFields.find(field => field.Name[0] == name)\<close>: the fields are tested in order,
  the first one that passes is returned, and a field without \<open>Name\<close> throws when its
  turn comes.
\<close>

fun find_field :: "string \<Rightarrow> custom_field list \<Rightarrow> error + custom_field option" where
  "find_field name [] = Inr None"
| "find_field name (f # fs) =
     (case idx0 (Name f) of
        Inl e \<Rightarrow> Inl e
      | Inr v \<Rightarrow> if js_eq v name then Inr (Some f) else find_field name fs)"

text \<open>
  What the test of \<open>find\<close> says of one field: it carries the name, or its name can be
  read and is another one.
\<close>

definition has_name :: "string \<Rightarrow> custom_field \<Rightarrow> bool" where
  "has_name name f = (case idx0 (Name f) of Inl e \<Rightarrow> False | Inr v \<Rightarrow> js_eq v name)"

definition other_name :: "string \<Rightarrow> custom_field \<Rightarrow> bool" where
  "other_name name f = (case idx0 (Name f) of Inl e \<Rightarrow> False | Inr v \<Rightarrow> \<not> js_eq v name)"

definition field_value :: "string \<Rightarrow> envelope_status \<Rightarrow> error + jsval" where
  "field_value name es =
     (case customFields_of es of
        Inl e \<Rightarrow> Inl e
      | Inr cfs \<Rightarrow>
          (case find_field name cfs of
             Inl e \<Rightarrow> Inl e
           | Inr None \<Rightarrow> Inr Null
           | Inr (Some f) \<Rightarrow> idx0 (Value f)))"

definition getOrderNumber :: "config \<Rightarrow> envelope_status \<Rightarrow> error + jsval" where
  "getOrderNumber cfg es = field_value (envelopeCustomField cfg) es"

definition getLightColor :: "config \<Rightarrow> envelope_status \<Rightarrow> error + jsval" where
  "getLightColor cfg es = field_value (envelopeColorCustomField cfg) es"

section \<open>Step 1 of process: the constants read from the parsed XML\<close>

definition bind :: "error + 'a \<Rightarrow> ('a \<Rightarrow> error + 'b) \<Rightarrow> error + 'b" where
  "bind r f = (case r of Inl e \<Rightarrow> Inl e | Inr v \<Rightarrow> f v)"

definition envelopeStatus_of :: "parsed_xml \<Rightarrow> error + envelope_status" where
  "envelopeStatus_of msg =
     (case DocuSignEnvelopeInformation msg of
        None \<Rightarrow> Inl TypeError
      | Some info \<Rightarrow>
          (case EnvelopeStatus info of
             None \<Rightarrow> Inl TypeError
           | Some [] \<Rightarrow> Inl TypeError
           | Some (es # _) \<Rightarrow> Inr es))"

text \<open>
  \<open>completed\<close> is read only when the status is \<open>Completed\<close> and is \<open>false\<close>
  otherwise; \<open>completedMsg\<close> is the text made of it.
\<close>

definition completedMsg_of :: "jsval \<Rightarrow> envelope_status \<Rightarrow> error + string" where
  "completedMsg_of st es =
     (if js_eq st ''Completed''
      then bind (idx0 (Completed es))
             (\<lambda>c. Inr (if truthy c then ''Completed '' @ to_str c @ ''.'' else []))
      else Inr [])"

definition decode :: "config \<Rightarrow> parsed_xml \<Rightarrow> error + notification" where
  "decode cfg msg =
     bind (envelopeStatus_of msg) (\<lambda>es.
     bind (idx0 (EnvelopeID es)) (\<lambda>eid.
     bind (idx0 (Created es)) (\<lambda>cr.
     bind (idx0 (Status es)) (\<lambda>st.
     bind (completedMsg_of st es) (\<lambda>cm.
     bind (idx0 (Subject es)) (\<lambda>su.
     bind (idx0 (UserName es)) (\<lambda>un.
     bind (idx0 (Email es)) (\<lambda>em.
     bind (getOrderNumber cfg es) (\<lambda>ord.
     bind (getLightColor cfg es) (\<lambda>col.
       Inr \<lparr>envelopeId = eid, created = cr, status = st, completedMsg = cm,
            subject = su, senderName = un, senderEmail = em,
            orderNumber = ord, lightColor = col\<rparr>))))))))))"

section \<open>saveDoc\<close>

text \<open>
  The body of the \<open>try\<close> block. \<open>orderNumber.replace\<close> exists only on a string, so any
  other value throws a TypeError there, after the download.
\<close>

definition outputFile :: "config \<Rightarrow> string \<Rightarrow> string" where
  "outputFile cfg k = path_join (outputDir cfg) (outputFilePefix cfg @ sanitize k @ ''.pdf'')"

text \<open>Creating the output directory if need be, then the output file.\<close>

definition saveDoc_store :: "config \<Rightarrow> string \<Rightarrow> string \<Rightarrow> world \<Rightarrow> (error + unit) \<times> world" where
  "saveDoc_store cfg k docResult w =
     (case ensure_dir (outputDir cfg) w of
        (Inl e, w3) \<Rightarrow> (Inl e, w3)
      | (Inr u, w3) \<Rightarrow> writeFile (outputFile cfg k) docResult w3)"

definition saveDoc_try :: "config \<Rightarrow> jsval \<Rightarrow> jsval \<Rightarrow> world \<Rightarrow> (error + unit) \<times> world" where
  "saveDoc_try cfg eid ord w =
     (let w1 = emit CheckToken w in
      if checkToken w1 \<noteq> TokenOk then (Inl TokenError, w1)
      else
        let w2 = emit (GetDocument eid) w1 in
        case documents w2 eid of
          None \<Rightarrow> (Inl DocumentError, w2)
        | Some docResult \<Rightarrow>
            (case ord of
               Str k \<Rightarrow>
                 (case saveDoc_store cfg k docResult w2 of
                    (Inl e, w4) \<Rightarrow> (Inl e, w4)
                  | (Inr u, w4) \<Rightarrow>
                      if enableBreakTest cfg \<and> str_includes (to_str ord) ''/break''
                      then (Inl BreakTest, w4)
                      else (Inr (), w4))
             | _ \<Rightarrow> (Inl TypeError, w2)))"


text \<open>The \<open>catch\<close> block logs the failure and throws \<open>saveDoc error\<close>.\<close>

definition saveDoc :: "config \<Rightarrow> jsval \<Rightarrow> jsval \<Rightarrow> world \<Rightarrow> (error + unit) \<times> world" where
  "saveDoc cfg eid ord w =
     (case saveDoc_try cfg eid ord w of
        (Inl e, w') \<Rightarrow> (Inl SaveDocError, emit (Log (LogSaveDocError eid ord e)) w')
      | (Inr u, w') \<Rightarrow> (Inr u, w'))"

section \<open>processTest\<close>

definition test_file :: "nat \<Rightarrow> string" where
  "test_file i = ''test'' @ string_of_nat i @ ''.txt''"

definition test_path :: "string \<Rightarrow> nat \<Rightarrow> string" where
  "test_path dir i = path_join dir (test_file i)"

text \<open>
  The loop \<open>for (let i = n; i >= 1; i--)\<close> that renames \<open>test{i}.txt\<close> to
  \<open>test{i+1}.txt\<close>; a failing rename is caught and ignored.
\<close>

fun shift_files :: "string \<Rightarrow> nat \<Rightarrow> world \<Rightarrow> world" where
  "shift_files dir 0 w = w"
| "shift_files dir (Suc i) w =
     shift_files dir i
       (snd (renameSync (path_join dir (test_file (Suc i)))
                        (path_join dir (test_file (Suc i + 1))) w))"

definition processTest :: "config \<Rightarrow> string \<Rightarrow> world \<Rightarrow> outcome \<times> world" where
  "processTest cfg test w =
     (if enableBreakTest cfg \<and> str_includes test ''/break''
      then (process_exit (Some 2), emit (Log LogBreaking) w)
      else
        let w1 = emit (Log (LogTestValue test)) w in
        case ensure_dir (testOutputDir cfg) w1 of
          (Inl e, w2) \<Rightarrow> (Rejected e, w2)
        | (Inr u, w2) \<Rightarrow>
            let w3 = shift_files (testOutputDir cfg) 19 w2 in
            (case writeFile (path_join (testOutputDir cfg) ''test1.txt'') test w3 of
               (Inl e, w4) \<Rightarrow> (Rejected e, w4)
             | (Inr u', w4) \<Rightarrow> (Returned, w4)))"

section \<open>process\<close>

text \<open>The request to the light API; it fails when the service does.\<close>

definition rp :: "string \<Rightarrow> jsval \<Rightarrow> world \<Rightarrow> (error + unit) \<times> world" where
  "rp selector color w =
     (let w1 = emit (LifxPut selector color) w
      in if lifx_ok w1 then (Inr (), w1) else (Inl LifxError, w1))"

text \<open>
  Step 4: the request is made inside \<open>try { ... } catch (e) {}\<close>, so its result is
  dropped.
\<close>

definition setLight :: "config \<Rightarrow> jsval \<Rightarrow> world \<Rightarrow> world" where
  "setLight cfg color w =
     (if truthy color \<and> truthy (lifxAccessToken cfg)
         \<and> \<not> js_eq (lifxAccessToken cfg) ''{LIFX_ACCESS_TOKEN}''
      then (case rp (lifxSelector cfg) color w of (Inl e, w') \<Rightarrow> w' | (Inr u, w') \<Rightarrow> w')
      else w)"

text \<open>
  Messages are taken one at a time here, so the lock around \<open>processTest\<close> changes
  nothing.
\<close>

definition process :: "config \<Rightarrow> jsval \<Rightarrow> xml_outcome \<Rightarrow> world \<Rightarrow> outcome \<times> world" where
  "process cfg test xml w =
     (if truthy test then processTest cfg (to_str test) w
      else
        case xml of
          XmlError \<Rightarrow> (Rejected XmlParseError, w)
        | XmlParsed msg \<Rightarrow>
            (case decode cfg msg of
               Inl e \<Rightarrow> (Rejected e, w)
             | Inr n \<Rightarrow>
                 let w1 = emit (Log (LogNotification n)) w in
                 if \<not> js_eq (status n) ''Completed''
                 then (Returned,
                       if debug cfg then emit (Log (LogIgnoredStatus (status n))) w1 else w1)
                 else if \<not> truthy (orderNumber n)
                 then (Returned,
                       if debug cfg
                       then emit (Log (LogIgnoredNoField (envelopeCustomField cfg))) w1
                       else w1)
                 else
                   (case saveDoc cfg (envelopeId n) (orderNumber n) w1 of
                      (Inl e, w2) \<Rightarrow> (Rejected JobProcessError, w2)
                    | (Inr u, w2) \<Rightarrow> (Returned, setLight cfg (lightColor n) w2))))"

section \<open>The message handler\<close>

text \<open>
  The body of a message is given by what \<open>JSON.parse\<close> makes of it: nothing when parsing
  throws or the value is falsy, otherwise the members \<open>test\<close> (a string when present)
  and \<open>xml\<close>. \<open>ack_throws\<close> says whether the transport's \<open>ack\<close> throws.
\<close>

record body =
  test :: jsval
  xml :: xml_outcome

record message =
  msg_id :: string
  data :: "body option"
  ack_throws :: bool

definition ack :: "message \<Rightarrow> world \<Rightarrow> world" where
  "ack m w =
     (let w1 = emit Ack w in if ack_throws m then emit (Log LogAckError) w1 else w1)"

text \<open>The debug line printed when a message arrives.\<close>

definition log_arrival :: "config \<Rightarrow> message \<Rightarrow> world \<Rightarrow> world" where
  "log_arrival cfg m w = (if debug cfg then emit (Log (LogProcessing (msg_id m))) w else w)"

definition messageHandler :: "config \<Rightarrow> message \<Rightarrow> world \<Rightarrow> outcome \<times> world" where
  "messageHandler cfg m w =
     (let w0 = log_arrival cfg m w in
      case data m of
        Some b \<Rightarrow>
          (case process cfg (test b) (xml b) w0 of
             (Returned, w1) \<Rightarrow> (Returned, ack m w1)
           | (r, w1) \<Rightarrow> (r, w1))
      | None \<Rightarrow> (Returned, ack m (emit (Log (LogBadBody (msg_id m))) w0)))"

section \<open>The startup token check\<close>

definition consent_url :: "config \<Rightarrow> string" where
  "consent_url cfg =
     ''https://'' @ authServer cfg @ ''/oauth/auth?response_type=code&''
       @ ''scope=signature%20impersonation&client_id='' @ to_str (clientId cfg) @ ''&''
       @ ''redirect_uri='' @ oAuthConsentRedirectURI cfg"

definition testToken :: "config \<Rightarrow> world \<Rightarrow> outcome \<times> world" where
  "testToken cfg w =
     (if \<not> truthy (clientId cfg) \<or> js_eq (clientId cfg) ''{CLIENT_ID}''
      then (process_exit None, emit (Log LogNeedConfig) w)
      else
        let w1 = emit CheckToken w in
        case checkToken w1 of
          TokenOk \<Rightarrow> (Returned, w1)
        | TokenApiError code err \<Rightarrow>
            if truthy err \<and> js_eq err ''consent_required''
            then (process_exit None, emit (Log (LogConsentRequired (consent_url cfg))) w1)
            else (process_exit None, emit (Log (LogApiProblem code err)) w1)
        | TokenFailure \<Rightarrow> (Rejected TokenError, w1))"

section \<open>What is observed of a run\<close>

definition acks :: "world \<Rightarrow> nat" where
  "acks w = count_list (trace w) Ack"

definition nacks :: "world \<Rightarrow> nat" where
  "nacks w = count_list (trace w) Nack"

text \<open>The calls for fulfillment (token check, download) and for actuation.\<close>

fun is_fulfill :: "event \<Rightarrow> bool" where
  "is_fulfill CheckToken = True"
| "is_fulfill (GetDocument eid) = True"
| "is_fulfill e = False"

fun is_lifx :: "event \<Rightarrow> bool" where
  "is_lifx (LifxPut selector color) = True"
| "is_lifx e = False"

fun is_log :: "event \<Rightarrow> bool" where
  "is_log (Log l) = True"
| "is_log e = False"

definition fulfill_calls :: "world \<Rightarrow> event list" where
  "fulfill_calls w = filter is_fulfill (trace w)"

definition lifx_calls :: "world \<Rightarrow> event list" where
  "lifx_calls w = filter is_lifx (trace w)"

text \<open>What the worker did after its first request to the light API.\<close>

definition after_actuation :: "event list \<Rightarrow> event list" where
  "after_actuation tr = tl (dropWhile (\<lambda>e. \<not> is_lifx e) tr)"

text \<open>
  The notification a message carries, when it is not a test message and its XML can be
  read; and the filter of step 2.
\<close>

definition notification_of :: "config \<Rightarrow> message \<Rightarrow> notification option" where
  "notification_of cfg m =
     (case data m of
        None \<Rightarrow> None
      | Some b \<Rightarrow>
          if truthy (test b) then None
          else
            (case xml b of
               XmlError \<Rightarrow> None
             | XmlParsed msg \<Rightarrow> (case decode cfg msg of Inl e \<Rightarrow> None | Inr n \<Rightarrow> Some n)))"

definition eligible :: "notification \<Rightarrow> bool" where
  "eligible n = (js_eq (status n) ''Completed'' \<and> truthy (orderNumber n))"

text \<open>
  XML that cannot be decoded into an envelope-status record: it does not parse, or the
  parsed document has no \<open>DocuSignEnvelopeInformation.EnvelopeStatus[0]\<close>.
\<close>

definition malformed :: "xml_outcome \<Rightarrow> bool" where
  "malformed x =
     (case x of
        XmlError \<Rightarrow> True
      | XmlParsed msg \<Rightarrow> (case envelopeStatus_of msg of Inl e \<Rightarrow> True | Inr es \<Rightarrow> False))"

section \<open>Sample inputs\<close>

definition sample_config :: config where
  "sample_config =
     \<lparr>debug = False, envelopeCustomField = ''Sales order'',
      envelopeColorCustomField = ''Light color'', outputFilePefix = ''order_'',
      outputDir = ''/app/output'', testOutputDir = ''test_messages'',
      enableBreakTest = True, lifxAccessToken = Str ''c0ffee'', lifxSelector = ''all'',
      clientId = Str ''7f3a'', authServer = ''account-d.docusign.com'',
      oAuthConsentRedirectURI = ''https://www.docusign.com''\<rparr>"

definition sample_status :: "string \<Rightarrow> custom_field list \<Rightarrow> envelope_status" where
  "sample_status st cfs =
     \<lparr>EnvelopeID = Some [''env-1''], Created = Some [''2019-01-01T10:00:00''],
      Status = Some [st], Completed = Some [''2019-01-02T11:00:00''],
      Subject = Some [''Please sign''], UserName = Some [''Pat''],
      Email = Some [''pat@example.com''], CustomFields = Some [Some cfs]\<rparr>"

text \<open>
  An envelope without custom fields, as the parser gives an empty \<open>CustomFields\<close>
  element: one entry that has no \<open>CustomField\<close> member.
\<close>

definition sample_status_no_fields :: "string \<Rightarrow> envelope_status" where
  "sample_status_no_fields st = (sample_status st [])\<lparr>CustomFields := Some [None]\<rparr>"

definition sample_xml_no_fields :: "string \<Rightarrow> xml_outcome" where
  "sample_xml_no_fields st =
     XmlParsed \<lparr>DocuSignEnvelopeInformation =
                  Some \<lparr>EnvelopeStatus = Some [sample_status_no_fields st]\<rparr>\<rparr>"

definition sample_fields :: "custom_field list" where
  "sample_fields =
     [\<lparr>Name = Some [''Team''], Value = Some [''West'']\<rparr>,
      \<lparr>Name = Some [''Sales order''], Value = Some [''SO-123/A'']\<rparr>,
      \<lparr>Name = Some [''Light color''], Value = Some [''green'']\<rparr>,
      \<lparr>Name = Some [''Sales order''], Value = Some [''SO-999'']\<rparr>]"

definition sample_message :: "xml_outcome \<Rightarrow> message" where
  "sample_message x =
     \<lparr>msg_id = ''42'', data = Some \<lparr>test = Undefined, xml = x\<rparr>, ack_throws = False\<rparr>"

definition sample_xml :: "string \<Rightarrow> custom_field list \<Rightarrow> xml_outcome" where
  "sample_xml st cfs =
     XmlParsed \<lparr>DocuSignEnvelopeInformation =
                  Some \<lparr>EnvelopeStatus = Some [sample_status st cfs]\<rparr>\<rparr>"

definition sample_notification :: notification where
  "sample_notification =
     \<lparr>envelopeId = Str ''env-1'', created = Str ''2019-01-01T10:00:00'',
      status = Str ''Completed'', completedMsg = ''Completed 2019-01-02T11:00:00.'',
      subject = Str ''Please sign'', senderName = Str ''Pat'',
      senderEmail = Str ''pat@example.com'', orderNumber = Str ''SO-123/A'',
      lightColor = Str ''green''\<rparr>"

definition sample_documents :: "jsval \<Rightarrow> string option" where
  "sample_documents eid = (if eid = Str ''env-1'' then Some ''%PDF-1.4 combined'' else None)"

definition sample_world :: "token_check \<Rightarrow> world" where
  "sample_world tc =
     \<lparr>dirs = {''/app'', ''.''}, files = Map.empty, io_fault = (\<lambda>c. False), trace = [],
      checkToken = tc, documents = sample_documents, lifx_ok = False\<rparr>"

section \<open>Sanitization\<close>

lemma sanitize_length: "length (sanitize k) = length k"
  by (induction k) simp_all

lemma sanitize_nth:
  "i < length k \<Longrightarrow> sanitize k ! i = (if is_word_char (k ! i) then k ! i else CHR ''_'')"
proof (induction k arbitrary: i)
  case Nil
  then show ?case by simp
next
  case (Cons c cs)
  show ?case
  proof (cases i)
    case 0
    then show ?thesis by simp
  next
    case (Suc j)
    with Cons.prems have "j < length cs" by simp
    with Cons.IH Suc show ?thesis by simp
  qed
qed

text \<open>
  C5. Sanitization is a total function of the key alone: the result has the length of the
  key, every word character is kept, every other character is replaced by an underscore,
  and the key \<open>SO-123/A\<close> becomes \<open>SO_123_A\<close>.
\<close>

theorem sanitize_replaces_non_word:
  "length (sanitize k) = length k
   \<and> (\<forall>i < length k. sanitize k ! i = (if is_word_char (k ! i) then k ! i else CHR ''_''))
   \<and> sanitize ''SO-123/A'' = ''SO_123_A''"
proof -
  have ex: "sanitize ''SO-123/A'' = ''SO_123_A''"
    by (simp add: is_word_char_def)
  show ?thesis
    using sanitize_length sanitize_nth ex by blast
qed

theorem sanitize_replaces_non_word_witness:
  "(2::nat) < length ''SO-123/A'' \<and> sanitize ''SO-123/A'' ! 2 = CHR ''_''
   \<and> length (sanitize ''SO-123/A'') = 8"
proof -
  have "\<forall>i < length ''SO-123/A''. sanitize ''SO-123/A'' ! i
          = (if is_word_char (''SO-123/A'' ! i) then ''SO-123/A'' ! i else CHR ''_'')"
    using sanitize_replaces_non_word [of "''SO-123/A''"] by blast
  then have "sanitize ''SO-123/A'' ! 2
          = (if is_word_char (''SO-123/A'' ! 2) then ''SO-123/A'' ! 2 else CHR ''_'')"
    by simp
  moreover have "length (sanitize ''SO-123/A'') = length ''SO-123/A''"
    using sanitize_replaces_non_word [of "''SO-123/A''"] by blast
  ultimately show ?thesis
    by (simp add: is_word_char_def)
qed

section \<open>Joining a directory and a simple name\<close>

lemma split_path_nonempty: "split_path p \<noteq> []"
  by (induction p) (auto split: list.splits)

lemma split_path_append:
  "split_path (xs @ CHR ''/'' # ys) = split_path xs @ split_path ys"
proof (induction xs)
  case Nil
  show ?case by simp
next
  case (Cons c cs)
  obtain s ss where s: "split_path cs = s # ss"
    using split_path_nonempty [of cs] by (cases "split_path cs") auto
  with Cons show ?case by simp
qed

lemma split_path_no_separator: "CHR ''/'' \<notin> set name \<Longrightarrow> split_path name = [name]"
  by (induction name) auto

lemma normalizeString_snoc:
  assumes "simple_name name"
  shows "normalizeString a res (ss @ [name]) = name # normalizeString a res ss"
  using assms
  by (induction ss arbitrary: res) (auto simp add: simple_name_def split: list.splits)

lemma join_segments_snoc:
  "join_segments (xs @ [n]) = (if xs = [] then n else join_segments xs @ ''/'' @ n)"
  by (induction xs rule: join_segments.induct) auto

lemma join_segments_nonempty: "xs \<noteq> [] \<Longrightarrow> last xs \<noteq> [] \<Longrightarrow> join_segments xs \<noteq> []"
  by (induction xs rule: join_segments.induct) auto

lemma path_join_simple:
  assumes "simple_name name"
  shows "path_join dir name = dir_prefix dir @ name"
proof (cases "dir = []")
  case True
  from assms have n: "name \<noteq> []" "CHR ''/'' \<notin> set name"
    by (simp_all add: simple_name_def)
  then have h: "hd name \<noteq> CHR ''/''" "last name \<noteq> CHR ''/''"
    by (metis hd_in_set, metis last_in_set)
  have "normalizeString True [] ([] @ [name]) = name # normalizeString True [] []"
    using assms by (rule normalizeString_snoc)
  then have "normalizeString True [] [name] = [name]" by simp
  with True n h show ?thesis
    by (simp add: path_join_def normalize_def dir_prefix_def split_path_no_separator Let_def)
next
  case False
  from assms have n: "name \<noteq> []" "CHR ''/'' \<notin> set name"
    by (simp_all add: simple_name_def)
  then have l: "last name \<noteq> CHR ''/''"
    by (metis last_in_set)
  define ab where "ab = (hd dir = CHR ''/'')"
  define st where "st = normalizeString (\<not> ab) [] (split_path dir)"
  have sp: "split_path (dir @ CHR ''/'' # name) = split_path dir @ [name]"
    using n by (simp add: split_path_append split_path_no_separator)
  have ns: "normalizeString (\<not> ab) [] (split_path dir @ [name]) = name # st"
    using assms by (simp add: normalizeString_snoc st_def)
  have js: "join_segments (rev st @ [name])
      = (if st = [] then name else join_segments (rev st) @ ''/'' @ name)"
    using join_segments_snoc [of "rev st" name] by simp
  have ne: "join_segments (rev st @ [name]) \<noteq> []"
    unfolding js using n by simp
  have "normalize (dir @ CHR ''/'' # name)
      = (if ab then ''/'' else []) @ join_segments (rev st @ [name])"
    using False l n ne
    by (simp add: normalize_def Let_def sp ns ab_def [symmetric])
  also have "\<dots> = dir_prefix dir @ name"
    using False by (simp add: dir_prefix_def Let_def js ab_def [symmetric] st_def [symmetric])
  finally show ?thesis
    using False n by (simp add: path_join_def)
qed

lemma path_join_inj:
  assumes "simple_name a" and "simple_name b" and "path_join d a = path_join d b"
  shows "a = b"
  using assms by (simp add: path_join_simple)

section \<open>Acknowledgement of notifications\<close>

lemmas world_ops = emit_def mkdir_def writeFile_def fse_exists_def ensure_dir_def

lemma emit_frame:
  "trace (emit e w) = trace w @ [e]" "files (emit e w) = files w" "dirs (emit e w) = dirs w"
  "io_fault (emit e w) = io_fault w" "checkToken (emit e w) = checkToken w"
  "documents (emit e w) = documents w" "lifx_ok (emit e w) = lifx_ok w"
  by (simp_all add: emit_def)

lemma ensure_dir_emit:
  "ensure_dir d (emit e w) = (fst (ensure_dir d w), emit e (snd (ensure_dir d w)))"
  by (simp add: world_ops)

lemma writeFile_emit:
  "writeFile p c (emit e w) = (fst (writeFile p c w), emit e (snd (writeFile p c w)))"
  by (simp add: world_ops)

lemma saveDoc_store_emit:
  "saveDoc_store cfg k d (emit e w)
     = (fst (saveDoc_store cfg k d w), emit e (snd (saveDoc_store cfg k d w)))"
proof -
  obtain r w3 where a: "ensure_dir (outputDir cfg) w = (r, w3)" by force
  then have "ensure_dir (outputDir cfg) (emit e w) = (r, emit e w3)"
    by (simp add: ensure_dir_emit)
  with a show ?thesis
    by (cases r) (simp_all add: saveDoc_store_def writeFile_emit)
qed

lemma ensure_dir_frame:
  "trace (snd (ensure_dir d w)) = trace w" "files (snd (ensure_dir d w)) = files w"
  "io_fault (snd (ensure_dir d w)) = io_fault w" "checkToken (snd (ensure_dir d w)) = checkToken w"
  "documents (snd (ensure_dir d w)) = documents w" "lifx_ok (snd (ensure_dir d w)) = lifx_ok w"
  by (simp_all add: world_ops)

lemma writeFile_frame:
  "trace (snd (writeFile p c w)) = trace w" "dirs (snd (writeFile p c w)) = dirs w"
  "io_fault (snd (writeFile p c w)) = io_fault w"
  "checkToken (snd (writeFile p c w)) = checkToken w"
  "documents (snd (writeFile p c w)) = documents w" "lifx_ok (snd (writeFile p c w)) = lifx_ok w"
  by (simp_all add: world_ops)

lemma shift_files_frame:
  "dirs (shift_files dir n w) = dirs w" "trace (shift_files dir n w) = trace w"
  "io_fault (shift_files dir n w) = io_fault w"
  by (induction n arbitrary: w) (simp_all add: renameSync_def split: option.splits)

lemma saveDoc_store_frame:
  "trace (snd (saveDoc_store cfg k d w)) = trace w"
  "io_fault (snd (saveDoc_store cfg k d w)) = io_fault w"
  "checkToken (snd (saveDoc_store cfg k d w)) = checkToken w"
  "documents (snd (saveDoc_store cfg k d w)) = documents w"
  "lifx_ok (snd (saveDoc_store cfg k d w)) = lifx_ok w"
proof -
  obtain r w3 where a: "ensure_dir (outputDir cfg) w = (r, w3)" by force
  then have f: "trace w3 = trace w" "io_fault w3 = io_fault w" "checkToken w3 = checkToken w"
      "documents w3 = documents w" "lifx_ok w3 = lifx_ok w"
    using ensure_dir_frame [of "outputDir cfg" w] by simp_all
  from a f show "trace (snd (saveDoc_store cfg k d w)) = trace w"
    by (cases r) (simp_all add: saveDoc_store_def writeFile_frame)
  from a f show "io_fault (snd (saveDoc_store cfg k d w)) = io_fault w"
    by (cases r) (simp_all add: saveDoc_store_def writeFile_frame)
  from a f show "checkToken (snd (saveDoc_store cfg k d w)) = checkToken w"
    by (cases r) (simp_all add: saveDoc_store_def writeFile_frame)
  from a f show "documents (snd (saveDoc_store cfg k d w)) = documents w"
    by (cases r) (simp_all add: saveDoc_store_def writeFile_frame)
  from a f show "lifx_ok (snd (saveDoc_store cfg k d w)) = lifx_ok w"
    by (cases r) (simp_all add: saveDoc_store_def writeFile_frame)
qed

text \<open>The result of the \<open>try\<close> block of \<open>saveDoc\<close>, and the calls it makes.\<close>

lemma saveDoc_try_result:
  "fst (saveDoc_try cfg eid ord w) =
     (if checkToken w \<noteq> TokenOk then Inl TokenError
      else case documents w eid of
        None \<Rightarrow> Inl DocumentError
      | Some d \<Rightarrow>
          (case ord of
             Str k \<Rightarrow>
               (case fst (saveDoc_store cfg k d w) of
                  Inl e \<Rightarrow> Inl e
                | Inr u \<Rightarrow> if enableBreakTest cfg \<and> str_includes k ''/break''
                           then Inl BreakTest else Inr ())
           | _ \<Rightarrow> Inl TypeError))"
  by (auto simp add: saveDoc_try_def Let_def saveDoc_store_emit emit_frame
        split: option.splits jsval.splits sum.splits)

lemma saveDoc_try_trace:
  "trace (snd (saveDoc_try cfg eid ord w)) =
     trace w @ CheckToken # (if checkToken w = TokenOk then [GetDocument eid] else [])"
  by (auto simp add: saveDoc_try_def Let_def saveDoc_store_emit saveDoc_store_frame emit_frame
        split: option.splits jsval.splits sum.splits)

lemma saveDoc_result:
  "fst (saveDoc cfg eid ord w) =
     (case fst (saveDoc_try cfg eid ord w) of Inl e \<Rightarrow> Inl SaveDocError | Inr u \<Rightarrow> Inr u)"
  by (simp add: saveDoc_def split: prod.splits sum.splits)

lemma saveDoc_trace:
  "trace (snd (saveDoc cfg eid ord w)) =
     trace w @ CheckToken # (if checkToken w = TokenOk then [GetDocument eid] else [])
       @ (case fst (saveDoc_try cfg eid ord w) of
            Inl e \<Rightarrow> [Log (LogSaveDocError eid ord e)] | Inr u \<Rightarrow> [])"
proof -
  obtain r w' where a: "saveDoc_try cfg eid ord w = (r, w')" by force
  with saveDoc_try_trace [of cfg eid ord w]
  have "trace w' = trace w @ CheckToken # (if checkToken w = TokenOk then [GetDocument eid] else [])"
    by simp
  with a show ?thesis
    by (cases r) (simp_all add: saveDoc_def emit_frame)
qed

lemma fst_saveDoc_emit:
  "fst (saveDoc cfg eid ord (emit ev w)) = fst (saveDoc cfg eid ord w)"
  by (simp add: saveDoc_result saveDoc_try_result saveDoc_store_emit emit_frame
        split: option.splits jsval.splits)

lemma saveDoc_acks: "acks (snd (saveDoc cfg eid ord w)) = acks w"
  by (simp add: acks_def saveDoc_trace split: sum.splits)

lemma saveDoc_nacks: "nacks (snd (saveDoc cfg eid ord w)) = nacks w"
  by (simp add: nacks_def saveDoc_trace split: sum.splits)

lemma saveDoc_lifx_calls: "lifx_calls (snd (saveDoc cfg eid ord w)) = lifx_calls w"
  by (simp add: lifx_calls_def saveDoc_trace split: sum.splits)

lemma emit_acks: "acks (emit e w) = (if e = Ack then Suc (acks w) else acks w)"
  by (simp add: acks_def emit_def)

lemma emit_nacks: "nacks (emit e w) = (if e = Nack then Suc (nacks w) else nacks w)"
  by (simp add: nacks_def emit_def)

lemma ack_acks: "acks (ack m w) = Suc (acks w)"
  by (simp add: ack_def emit_acks Let_def)

lemma ack_nacks: "nacks (ack m w) = nacks w"
  by (simp add: ack_def emit_nacks Let_def)

lemma setLight_acks: "acks (setLight cfg c w) = acks w"
  by (simp add: setLight_def rp_def emit_acks Let_def)

lemma setLight_nacks: "nacks (setLight cfg c w) = nacks w"
  by (simp add: setLight_def rp_def emit_nacks Let_def)

lemma messageHandler_notification:
  assumes "notification_of cfg m = Some n"
  shows "messageHandler cfg m w =
     (let w1 = emit (Log (LogNotification n)) (log_arrival cfg m w) in
      if \<not> eligible n
      then (Returned, ack m (if debug cfg
              then emit (Log (if \<not> js_eq (status n) ''Completed''
                       then LogIgnoredStatus (status n)
                       else LogIgnoredNoField (envelopeCustomField cfg))) w1
              else w1))
      else (case saveDoc cfg (envelopeId n) (orderNumber n) w1 of
              (Inl e, w2) \<Rightarrow> (Rejected JobProcessError, w2)
            | (Inr u, w2) \<Rightarrow> (Returned, ack m (setLight cfg (lightColor n) w2))))"
proof -
  from assms obtain b x where b: "data m = Some b" "\<not> truthy (test b)"
      "xml b = XmlParsed x" "decode cfg x = Inr n"
    by (auto simp add: notification_of_def
             split: option.splits xml_outcome.splits sum.splits if_splits)
  show ?thesis
  proof (cases "eligible n")
    case False
    with b show ?thesis
      by (simp add: messageHandler_def process_def eligible_def log_arrival_def Let_def)
  next
    case True
    with b show ?thesis
      by (simp add: messageHandler_def process_def eligible_def log_arrival_def Let_def
               split: prod.splits sum.splits)
  qed
qed


lemmas sample_defs = sample_config_def sample_message_def sample_xml_def sample_world_def
  sample_fields_def sample_status_def sample_documents_def sample_notification_def

lemmas decode_defs = decode_def bind_def envelopeStatus_of_def completedMsg_of_def
  getOrderNumber_def getLightColor_def field_value_def customFields_of_def

lemmas run_defs = messageHandler_def log_arrival_def process_def saveDoc_def saveDoc_try_def
  saveDoc_store_def setLight_def rp_def ack_def outputFile_def

lemma sample_notification_of:
  "notification_of sample_config (sample_message (sample_xml ''Completed'' sample_fields))
     = Some sample_notification"
  by (simp add: notification_of_def sample_defs decode_defs)

lemma sample_eligible: "eligible sample_notification"
  by (simp add: eligible_def sample_notification_def)

lemma sample_saveDoc_fails:
  "fst (saveDoc sample_config (envelopeId sample_notification) (orderNumber sample_notification)
          (sample_world TokenFailure)) = Inl SaveDocError"
  by (simp add: saveDoc_def saveDoc_try_def saveDoc_store_def sample_defs world_ops Let_def)

text \<open>
  C1 (as amended). When \<open>saveDoc\<close> throws for an eligible notification, the handler's
  promise rejects with the job error and the message is neither acked nor nacked: the
  handler makes no acknowledgement call at all, so redelivery is left to the transport.
\<close>

theorem fulfillment_failure_rejects_unacked:
  assumes "notification_of cfg m = Some n" and "eligible n"
    and "fst (saveDoc cfg (envelopeId n) (orderNumber n) w) = Inl e"
  shows "fst (messageHandler cfg m w) = Rejected JobProcessError
         \<and> acks (snd (messageHandler cfg m w)) = acks w
         \<and> nacks (snd (messageHandler cfg m w)) = nacks w"
proof -
  define w1 where "w1 = emit (Log (LogNotification n)) (log_arrival cfg m w)"
  obtain r w2 where s: "saveDoc cfg (envelopeId n) (orderNumber n) w1 = (r, w2)" by force
  have "fst (saveDoc cfg (envelopeId n) (orderNumber n) w1) = Inl e"
    using assms(3) by (simp add: w1_def log_arrival_def fst_saveDoc_emit)
  with s have r: "r = Inl e" by simp
  have mh: "messageHandler cfg m w = (Rejected JobProcessError, w2)"
    using assms(1,2) s r by (simp add: messageHandler_notification w1_def [symmetric])
  have "acks w2 = acks w1" "nacks w2 = nacks w1"
    using saveDoc_acks [of cfg "envelopeId n" "orderNumber n" w1]
          saveDoc_nacks [of cfg "envelopeId n" "orderNumber n" w1] s by simp_all
  moreover have "acks w1 = acks w" "nacks w1 = nacks w"
    by (simp_all add: w1_def log_arrival_def emit_acks emit_nacks)
  ultimately show ?thesis using mh by simp
qed

theorem fulfillment_failure_rejects_unacked_witness:
  "fst (messageHandler sample_config (sample_message (sample_xml ''Completed'' sample_fields))
          (sample_world TokenFailure)) = Rejected JobProcessError
   \<and> acks (snd (messageHandler sample_config
          (sample_message (sample_xml ''Completed'' sample_fields))
          (sample_world TokenFailure))) = acks (sample_world TokenFailure)"
  using fulfillment_failure_rejects_unacked
          [OF sample_notification_of sample_eligible sample_saveDoc_fails]
  by simp

text \<open>
  The sample notification is eligible and its download fails at the token check; the
  handler has then made no \<open>nack\<close> call, so the message is not nacked exactly once.
\<close>

theorem fulfillment_failure_nack_counterexample:
  "notification_of sample_config (sample_message (sample_xml ''Completed'' sample_fields))
     = Some sample_notification
   \<and> eligible sample_notification
   \<and> fst (saveDoc sample_config (envelopeId sample_notification)
            (orderNumber sample_notification) (sample_world TokenFailure)) = Inl SaveDocError
   \<and> nacks (sample_world TokenFailure) = 0
   \<and> nacks (snd (messageHandler sample_config
          (sample_message (sample_xml ''Completed'' sample_fields))
          (sample_world TokenFailure))) \<noteq> 1"
proof -
  have "nacks (snd (messageHandler sample_config
          (sample_message (sample_xml ''Completed'' sample_fields))
          (sample_world TokenFailure))) = 0"
    by (simp add: run_defs sample_defs decode_defs world_ops nacks_def Let_def)
  moreover have "nacks (sample_world TokenFailure) = 0"
    by (simp add: nacks_def sample_world_def)
  ultimately show ?thesis
    using sample_notification_of sample_eligible sample_saveDoc_fails by simp
qed

lemma emit_fulfill_calls:
  "fulfill_calls (emit e w) = (if is_fulfill e then fulfill_calls w @ [e] else fulfill_calls w)"
  by (simp add: fulfill_calls_def emit_def)

lemma emit_lifx_calls:
  "lifx_calls (emit e w) = (if is_lifx e then lifx_calls w @ [e] else lifx_calls w)"
  by (simp add: lifx_calls_def emit_def)

lemma emit_files: "files (emit e w) = files w" and emit_dirs: "dirs (emit e w) = dirs w"
  by (simp_all add: emit_def)

lemma ack_unchanged:
  "fulfill_calls (ack m w) = fulfill_calls w" "lifx_calls (ack m w) = lifx_calls w"
  "files (ack m w) = files w" "dirs (ack m w) = dirs w"
  by (simp_all add: ack_def Let_def emit_fulfill_calls emit_lifx_calls emit_files emit_dirs)

lemma log_arrival_unchanged:
  "acks (log_arrival cfg m w) = acks w" "nacks (log_arrival cfg m w) = nacks w"
  "fulfill_calls (log_arrival cfg m w) = fulfill_calls w"
  "lifx_calls (log_arrival cfg m w) = lifx_calls w"
  "files (log_arrival cfg m w) = files w" "dirs (log_arrival cfg m w) = dirs w"
  by (simp_all add: log_arrival_def emit_acks emit_nacks emit_fulfill_calls emit_lifx_calls
        emit_files emit_dirs)

text \<open>
  A notification that is read from the message but is ineligible (its status is not
  \<open>Completed\<close>, or the business-key field is absent from the custom fields or empty) is
  acked once, never nacked; no token check, download or light request is made and no file or
  directory changes.
\<close>

lemma ineligible_acked_without_fulfillment:
  assumes "notification_of cfg m = Some n"
    and "\<not> js_eq (status n) ''Completed'' \<or> \<not> truthy (orderNumber n)"
  shows "fst (messageHandler cfg m w) = Returned
         \<and> acks (snd (messageHandler cfg m w)) = Suc (acks w)
         \<and> nacks (snd (messageHandler cfg m w)) = nacks w
         \<and> fulfill_calls (snd (messageHandler cfg m w)) = fulfill_calls w
         \<and> lifx_calls (snd (messageHandler cfg m w)) = lifx_calls w
         \<and> files (snd (messageHandler cfg m w)) = files w
         \<and> dirs (snd (messageHandler cfg m w)) = dirs w"
proof -
  from assms(2) have ne: "\<not> eligible n" by (auto simp add: eligible_def)
  define w1 where "w1 = emit (Log (LogNotification n)) (log_arrival cfg m w)"
  define l where "l = (if \<not> js_eq (status n) ''Completed''
                       then LogIgnoredStatus (status n)
                       else LogIgnoredNoField (envelopeCustomField cfg))"
  define w2 where "w2 = (if debug cfg then emit (Log l) w1 else w1)"
  have mh: "messageHandler cfg m w = (Returned, ack m w2)"
    using assms(1) ne by (simp add: messageHandler_notification w1_def w2_def l_def Let_def)
  have "acks w2 = acks w" "nacks w2 = nacks w" "fulfill_calls w2 = fulfill_calls w"
       "lifx_calls w2 = lifx_calls w" "files w2 = files w" "dirs w2 = dirs w"
    by (simp_all add: w2_def w1_def emit_acks emit_nacks emit_fulfill_calls emit_lifx_calls
          emit_files emit_dirs log_arrival_unchanged)
  then show ?thesis
    by (simp add: mh ack_acks ack_nacks ack_unchanged)
qed

text \<open>
  C2 (the code at the failing input). A notification with status \<open>Sent\<close> whose envelope
  has no custom fields is ineligible twice over: its status is not \<open>Completed\<close> and it
  has no business-key field. The lookup of the order number is made before the filter and
  throws a TypeError there, so \<open>process\<close> rejects and the handler never reaches the ack:
  the message is not acked.
\<close>

theorem ineligible_without_custom_fields_unacked:
  "getOrderNumber sample_config (sample_status_no_fields ''Sent'') = Inl TypeError
   \<and> fst (messageHandler sample_config (sample_message (sample_xml_no_fields ''Sent''))
          (sample_world TokenOk)) = Rejected TypeError
   \<and> acks (snd (messageHandler sample_config (sample_message (sample_xml_no_fields ''Sent''))
          (sample_world TokenOk))) = 0"
  by (simp add: run_defs sample_defs sample_status_no_fields_def sample_xml_no_fields_def
        decode_defs acks_def)

section \<open>Messages that cannot be decoded\<close>

lemma processTest_result:
  "fst (processTest cfg v w) =
     (if enableBreakTest cfg \<and> str_includes v ''/break'' then Exited 2
      else case fst (ensure_dir (testOutputDir cfg) w) of
        Inl e \<Rightarrow> Rejected e
      | Inr u \<Rightarrow>
          (case fst (writeFile (path_join (testOutputDir cfg) ''test1.txt'') v
                       (snd (ensure_dir (testOutputDir cfg) w))) of
             Inl e \<Rightarrow> Rejected e
           | Inr u' \<Rightarrow> Returned))"
proof -
  define w1 where "w1 = emit (Log (LogTestValue v)) w"
  obtain r w2 where a: "ensure_dir (testOutputDir cfg) w = (r, w2)" by force
  then have b: "ensure_dir (testOutputDir cfg) w1 = (r, emit (Log (LogTestValue v)) w2)"
    by (simp add: w1_def ensure_dir_emit)
  define w3 where "w3 = shift_files (testOutputDir cfg) 19 (emit (Log (LogTestValue v)) w2)"
  have "fst (writeFile (path_join (testOutputDir cfg) ''test1.txt'') v w3)
      = fst (writeFile (path_join (testOutputDir cfg) ''test1.txt'') v w2)"
    by (simp add: writeFile_def w3_def shift_files_frame emit_frame)
  with a b show ?thesis
    by (cases r)
       (auto simp add: processTest_def Let_def w1_def [symmetric] w3_def [symmetric]
          split: prod.splits sum.splits)
qed

lemma processTest_trace:
  "trace (snd (processTest cfg v w)) =
     trace w @ [Log (if enableBreakTest cfg \<and> str_includes v ''/break''
                     then LogBreaking else LogTestValue v)]"
proof -
  define w1 where "w1 = emit (Log (LogTestValue v)) w"
  obtain r w2 where a: "ensure_dir (testOutputDir cfg) w1 = (r, w2)" by force
  with ensure_dir_frame(1) [of "testOutputDir cfg" w1] have t2: "trace w2 = trace w1" by simp
  define w3 where "w3 = shift_files (testOutputDir cfg) 19 w2"
  have t3: "trace w3 = trace w1" by (simp add: w3_def shift_files_frame t2)
  obtain r' w4 where c: "writeFile (path_join (testOutputDir cfg) ''test1.txt'') v w3 = (r', w4)"
    by force
  with writeFile_frame(1) [of "path_join (testOutputDir cfg) ''test1.txt''" v w3] t3
  have t4: "trace w4 = trace w1" by simp
  have t1: "trace w1 = trace w @ [Log (LogTestValue v)]"
    by (simp add: w1_def emit_frame)
  from a c t1 t2 t4 show ?thesis
    by (cases r; cases r')
       (simp_all add: processTest_def Let_def w1_def [symmetric] w3_def [symmetric] emit_frame)
qed

lemma fst_processTest_emit: "fst (processTest cfg v (emit e w)) = fst (processTest cfg v w)"
  by (simp add: processTest_result ensure_dir_emit writeFile_emit split: sum.splits)

lemma processTest_acks:
  "acks (snd (processTest cfg v w)) = acks w" "nacks (snd (processTest cfg v w)) = nacks w"
  by (simp_all add: acks_def nacks_def processTest_trace)

text \<open>
  C3 (as amended). A message whose body cannot be parsed as JSON, or parses to a falsy
  value, is acked once and never nacked. A message with a truthy test value goes to the
  harness, which does not read the XML, so malformed XML changes nothing for it: it is
  never nacked, and it is acked once when the harness returns. A message without a truthy
  test value whose XML is malformed (it does not parse, or it has no envelope-status
  section) is neither acked nor nacked: the handler's promise rejects before the ack.
\<close>

theorem bad_body_acked_malformed_xml_rejected:
  "(data m = None \<longrightarrow>
      fst (messageHandler cfg m w) = Returned
      \<and> acks (snd (messageHandler cfg m w)) = Suc (acks w)
      \<and> nacks (snd (messageHandler cfg m w)) = nacks w)
   \<and> (data m = Some b \<and> truthy (test b) \<longrightarrow>
      nacks (snd (messageHandler cfg m w)) = nacks w
      \<and> (fst (processTest cfg (to_str (test b)) w) = Returned \<longrightarrow>
            fst (messageHandler cfg m w) = Returned
            \<and> acks (snd (messageHandler cfg m w)) = Suc (acks w)))
   \<and> (data m = Some b \<and> \<not> truthy (test b) \<and> malformed (xml b) \<longrightarrow>
      (\<exists>e. fst (messageHandler cfg m w) = Rejected e)
      \<and> acks (snd (messageHandler cfg m w)) = acks w
      \<and> nacks (snd (messageHandler cfg m w)) = nacks w)"
proof (intro conjI impI)
  assume d: "data m = None"
  then have mh: "messageHandler cfg m w
      = (Returned, ack m (emit (Log (LogBadBody (msg_id m))) (log_arrival cfg m w)))"
    by (simp add: messageHandler_def Let_def)
  show "fst (messageHandler cfg m w) = Returned" by (simp add: mh)
  show "acks (snd (messageHandler cfg m w)) = Suc (acks w)"
    by (simp add: mh ack_acks emit_acks log_arrival_unchanged)
  show "nacks (snd (messageHandler cfg m w)) = nacks w"
    by (simp add: mh ack_nacks emit_nacks log_arrival_unchanged)
next
  assume t: "data m = Some b \<and> truthy (test b)"
  define w0 where "w0 = log_arrival cfg m w"
  obtain r w1 where p: "processTest cfg (to_str (test b)) w0 = (r, w1)" by force
  have f: "acks w1 = acks w" "nacks w1 = nacks w"
    using p processTest_acks [of cfg "to_str (test b)" w0]
    by (simp_all add: w0_def log_arrival_unchanged)
  have mh: "messageHandler cfg m w = (if r = Returned then (Returned, ack m w1) else (r, w1))"
    using t p by (cases r) (simp_all add: messageHandler_def process_def Let_def w0_def)
  show "nacks (snd (messageHandler cfg m w)) = nacks w"
    by (simp add: mh f ack_nacks)
  assume "fst (processTest cfg (to_str (test b)) w) = Returned"
  then have "fst (processTest cfg (to_str (test b)) w0) = Returned"
    by (simp add: w0_def log_arrival_def fst_processTest_emit)
  with p have r: "r = Returned" by simp
  show "fst (messageHandler cfg m w) = Returned" by (simp add: mh r)
  show "acks (snd (messageHandler cfg m w)) = Suc (acks w)"
    by (simp add: mh r f ack_acks)
next
  assume u: "data m = Some b \<and> \<not> truthy (test b) \<and> malformed (xml b)"
  then obtain e where p: "process cfg (test b) (xml b) (log_arrival cfg m w)
      = (Rejected e, log_arrival cfg m w)"
    by (auto simp add: malformed_def process_def decode_def bind_def
          split: xml_outcome.splits sum.splits)
  with u have mh: "messageHandler cfg m w = (Rejected e, log_arrival cfg m w)"
    by (simp add: messageHandler_def Let_def)
  show "\<exists>e. fst (messageHandler cfg m w) = Rejected e" by (simp add: mh)
  show "acks (snd (messageHandler cfg m w)) = acks w"
    by (simp add: mh log_arrival_unchanged)
  show "nacks (snd (messageHandler cfg m w)) = nacks w"
    by (simp add: mh log_arrival_unchanged)
qed

lemma sample_harness_returns:
  "fst (processTest sample_config ''ping'' (sample_world TokenOk)) = Returned"
  by (simp add: processTest_result world_ops sample_defs path_join_def normalize_def
        parent_dir_def starts_with_def)

theorem bad_body_acked_malformed_xml_rejected_witness:
  "acks (snd (messageHandler sample_config
            \<lparr>msg_id = ''7'', data = None, ack_throws = False\<rparr> (sample_world TokenOk))) = 1
   \<and> acks (snd (messageHandler sample_config
            \<lparr>msg_id = ''8'', data = Some \<lparr>test = Str ''ping'', xml = XmlError\<rparr>,
               ack_throws = False\<rparr> (sample_world TokenOk))) = 1
   \<and> acks (snd (messageHandler sample_config (sample_message XmlError) (sample_world TokenOk)))
       = 0"
proof -
  have a: "acks (sample_world TokenOk) = 0"
    by (simp add: acks_def sample_world_def)
  have "acks (snd (messageHandler sample_config
            \<lparr>msg_id = ''7'', data = None, ack_throws = False\<rparr> (sample_world TokenOk)))
        = Suc (acks (sample_world TokenOk))"
    using bad_body_acked_malformed_xml_rejected
            [of "\<lparr>msg_id = ''7'', data = None, ack_throws = False\<rparr>" sample_config
                "sample_world TokenOk"]
    by simp
  moreover
  have "acks (snd (messageHandler sample_config
            \<lparr>msg_id = ''8'', data = Some \<lparr>test = Str ''ping'', xml = XmlError\<rparr>,
               ack_throws = False\<rparr> (sample_world TokenOk)))
        = Suc (acks (sample_world TokenOk))"
    using sample_harness_returns
          bad_body_acked_malformed_xml_rejected
            [of "\<lparr>msg_id = ''8'', data = Some \<lparr>test = Str ''ping'', xml = XmlError\<rparr>,
                   ack_throws = False\<rparr>"
                sample_config "sample_world TokenOk" "\<lparr>test = Str ''ping'', xml = XmlError\<rparr>"]
    by simp
  moreover
  have "acks (snd (messageHandler sample_config (sample_message XmlError)
                     (sample_world TokenOk))) = acks (sample_world TokenOk)"
    using bad_body_acked_malformed_xml_rejected
            [of "sample_message XmlError" sample_config "sample_world TokenOk"
                "\<lparr>test = Undefined, xml = XmlError\<rparr>"]
    by (simp add: sample_message_def malformed_def)
  ultimately show ?thesis by (simp add: a)
qed

text \<open>
  The XML of the sample message does not parse: the message cannot be decoded, and the
  handler rejects without having acked it.
\<close>

theorem malformed_xml_not_acked_counterexample:
  "malformed XmlError
   \<and> data (sample_message XmlError) = Some \<lparr>test = Undefined, xml = XmlError\<rparr>
   \<and> fst (messageHandler sample_config (sample_message XmlError) (sample_world TokenOk))
       = Rejected XmlParseError
   \<and> acks (snd (messageHandler sample_config (sample_message XmlError) (sample_world TokenOk)))
       = 0"
  by (simp add: malformed_def run_defs sample_defs acks_def)

section \<open>The light request\<close>

lemma setLight_trace:
  "trace (setLight cfg c w) = trace w @
     (if truthy c \<and> truthy (lifxAccessToken cfg)
         \<and> \<not> js_eq (lifxAccessToken cfg) ''{LIFX_ACCESS_TOKEN}''
      then [LifxPut (lifxSelector cfg) c] else [])"
  by (simp add: setLight_def rp_def emit_def Let_def)

lemma ack_trace:
  "trace (ack m w) = trace w @ Ack # (if ack_throws m then [Log LogAckError] else [])"
  by (simp add: ack_def emit_def Let_def)

lemma rp_fails: "\<not> lifx_ok w \<Longrightarrow> fst (rp selector color w) = Inl LifxError"
  by (simp add: rp_def emit_def Let_def)

lemma messageHandler_fulfilled:
  assumes "notification_of cfg m = Some n" and "eligible n"
    and "fst (saveDoc cfg (envelopeId n) (orderNumber n) w) = Inr ()"
  shows "messageHandler cfg m w =
     (Returned, ack m (setLight cfg (lightColor n)
        (snd (saveDoc cfg (envelopeId n) (orderNumber n)
                (emit (Log (LogNotification n)) (log_arrival cfg m w))))))"
proof -
  define w1 where "w1 = emit (Log (LogNotification n)) (log_arrival cfg m w)"
  obtain r w2 where s: "saveDoc cfg (envelopeId n) (orderNumber n) w1 = (r, w2)" by force
  have "fst (saveDoc cfg (envelopeId n) (orderNumber n) w1) = Inr ()"
    using assms(3) by (simp add: w1_def log_arrival_def fst_saveDoc_emit)
  with s have "r = Inr ()" by simp
  with assms(1,2) s show ?thesis
    by (simp add: messageHandler_notification w1_def [symmetric])
qed

text \<open>
  C7 (as amended). When the request to the light API fails, the failure is dropped in an
  empty \<open>catch\<close>: nothing is logged about it and nothing is propagated. The handler
  returns, the very next call after the request is the ack, and the message is acked once
  and never nacked.
\<close>

theorem actuation_failure_swallowed:
  assumes "notification_of cfg m = Some n" and "eligible n"
    and "fst (saveDoc cfg (envelopeId n) (orderNumber n) w) = Inr ()"
    and "truthy (lightColor n)" and "truthy (lifxAccessToken cfg)"
    and "\<not> js_eq (lifxAccessToken cfg) ''{LIFX_ACCESS_TOKEN}''"
    and "\<not> lifx_ok w"
  shows "fst (rp (lifxSelector cfg) (lightColor n) w) = Inl LifxError
         \<and> fst (messageHandler cfg m w) = Returned
         \<and> acks (snd (messageHandler cfg m w)) = Suc (acks w)
         \<and> nacks (snd (messageHandler cfg m w)) = nacks w
         \<and> (\<exists>before. trace (snd (messageHandler cfg m w)) =
               before @ LifxPut (lifxSelector cfg) (lightColor n) # Ack
                 # (if ack_throws m then [Log LogAckError] else []))"
proof -
  define w2 where "w2 = snd (saveDoc cfg (envelopeId n) (orderNumber n)
                               (emit (Log (LogNotification n)) (log_arrival cfg m w)))"
  have mh: "messageHandler cfg m w = (Returned, ack m (setLight cfg (lightColor n) w2))"
    using messageHandler_fulfilled [OF assms(1,2,3)] by (simp add: w2_def)
  have a: "acks w2 = acks w" and na: "nacks w2 = nacks w"
    by (simp_all add: w2_def saveDoc_acks saveDoc_nacks emit_acks emit_nacks
          log_arrival_unchanged)
  have "trace (snd (messageHandler cfg m w)) =
          trace w2 @ LifxPut (lifxSelector cfg) (lightColor n) # Ack
            # (if ack_throws m then [Log LogAckError] else [])"
    using assms(4,5,6) by (simp add: mh ack_trace setLight_trace)
  then have "\<exists>before. trace (snd (messageHandler cfg m w)) =
               before @ LifxPut (lifxSelector cfg) (lightColor n) # Ack
                 # (if ack_throws m then [Log LogAckError] else [])"
    by blast
  then show ?thesis
    using rp_fails [OF assms(7)]
    by (simp add: mh ack_acks ack_nacks setLight_acks setLight_nacks a na)
qed

lemma sample_saveDoc_ok:
  "fst (saveDoc sample_config (envelopeId sample_notification) (orderNumber sample_notification)
          (sample_world TokenOk)) = Inr ()"
  by (simp add: saveDoc_def saveDoc_try_def saveDoc_store_def outputFile_def path_join_def
        normalize_def parent_dir_def is_word_char_def sample_defs world_ops starts_with_def Let_def)

theorem actuation_failure_swallowed_witness:
  "\<not> lifx_ok (sample_world TokenOk)
   \<and> fst (messageHandler sample_config
          (sample_message (sample_xml ''Completed'' sample_fields)) (sample_world TokenOk))
       = Returned
   \<and> acks (snd (messageHandler sample_config
          (sample_message (sample_xml ''Completed'' sample_fields)) (sample_world TokenOk)))
       = 1"
proof -
  have "truthy (lightColor sample_notification)"
       "truthy (lifxAccessToken sample_config)"
       "\<not> js_eq (lifxAccessToken sample_config) ''{LIFX_ACCESS_TOKEN}''"
       "\<not> lifx_ok (sample_world TokenOk)"
    by (simp_all add: sample_defs)
  then show ?thesis
    using actuation_failure_swallowed
            [OF sample_notification_of sample_eligible sample_saveDoc_ok]
    by (simp add: acks_def sample_world_def)
qed

text \<open>
  The light request of the sample run fails, and the only thing the handler does after it
  is the ack: no line is logged for the failure.
\<close>

theorem actuation_failure_not_logged_counterexample:
  "fst (rp (lifxSelector sample_config) (lightColor sample_notification) (sample_world TokenOk))
     = Inl LifxError
   \<and> lifx_calls (snd (messageHandler sample_config
          (sample_message (sample_xml ''Completed'' sample_fields)) (sample_world TokenOk)))
       = [LifxPut ''all'' (Str ''green'')]
   \<and> after_actuation (trace (snd (messageHandler sample_config
          (sample_message (sample_xml ''Completed'' sample_fields)) (sample_world TokenOk))))
       = [Ack]
   \<and> filter is_log (after_actuation (trace (snd (messageHandler sample_config
          (sample_message (sample_xml ''Completed'' sample_fields)) (sample_world TokenOk)))))
       = []"
proof -
  have t: "trace (snd (messageHandler sample_config
          (sample_message (sample_xml ''Completed'' sample_fields)) (sample_world TokenOk)))
       = [Log (LogNotification sample_notification), CheckToken, GetDocument (Str ''env-1''),
          LifxPut ''all'' (Str ''green''), Ack]"
    by (simp add: run_defs sample_defs decode_defs world_ops path_join_def normalize_def
          parent_dir_def is_word_char_def starts_with_def Let_def)
  have "fst (rp (lifxSelector sample_config) (lightColor sample_notification)
          (sample_world TokenOk)) = Inl LifxError"
    by (simp add: rp_def emit_def sample_defs Let_def)
  then show ?thesis
    by (simp add: t lifx_calls_def after_actuation_def)
qed

text \<open>
  C10. After a successful download for an eligible notification, the light API is called
  exactly when a non-empty light color was read and the configured access token is set and
  is not the placeholder; otherwise no request is made. In both cases the handler returns
  and the message is acked once.
\<close>

theorem actuation_only_when_configured:
  assumes "notification_of cfg m = Some n" and "eligible n"
    and "fst (saveDoc cfg (envelopeId n) (orderNumber n) w) = Inr ()"
  shows "fst (messageHandler cfg m w) = Returned
         \<and> acks (snd (messageHandler cfg m w)) = Suc (acks w)
         \<and> nacks (snd (messageHandler cfg m w)) = nacks w
         \<and> lifx_calls (snd (messageHandler cfg m w)) = lifx_calls w @
             (if truthy (lightColor n) \<and> truthy (lifxAccessToken cfg)
                 \<and> \<not> js_eq (lifxAccessToken cfg) ''{LIFX_ACCESS_TOKEN}''
              then [LifxPut (lifxSelector cfg) (lightColor n)] else [])"
proof -
  define w2 where "w2 = snd (saveDoc cfg (envelopeId n) (orderNumber n)
                               (emit (Log (LogNotification n)) (log_arrival cfg m w)))"
  have mh: "messageHandler cfg m w = (Returned, ack m (setLight cfg (lightColor n) w2))"
    using messageHandler_fulfilled [OF assms] by (simp add: w2_def)
  have a: "acks w2 = acks w" and na: "nacks w2 = nacks w" and l: "lifx_calls w2 = lifx_calls w"
    by (simp_all add: w2_def saveDoc_acks saveDoc_nacks saveDoc_lifx_calls emit_acks emit_nacks
          emit_lifx_calls log_arrival_unchanged)
  have "lifx_calls (setLight cfg (lightColor n) w2) = lifx_calls w2 @
             (if truthy (lightColor n) \<and> truthy (lifxAccessToken cfg)
                 \<and> \<not> js_eq (lifxAccessToken cfg) ''{LIFX_ACCESS_TOKEN}''
              then [LifxPut (lifxSelector cfg) (lightColor n)] else [])"
    by (simp add: lifx_calls_def setLight_trace)
  then show ?thesis
    by (simp add: mh ack_acks ack_nacks ack_unchanged setLight_acks setLight_nacks a na l)
qed

lemma placeholder_notification_of:
  "notification_of (sample_config\<lparr>lifxAccessToken := Str ''{LIFX_ACCESS_TOKEN}''\<rparr>)
     (sample_message (sample_xml ''Completed'' sample_fields)) = Some sample_notification"
  by (simp add: notification_of_def sample_defs decode_defs)

lemma placeholder_saveDoc_ok:
  "fst (saveDoc (sample_config\<lparr>lifxAccessToken := Str ''{LIFX_ACCESS_TOKEN}''\<rparr>)
          (envelopeId sample_notification) (orderNumber sample_notification)
          (sample_world TokenOk)) = Inr ()"
  by (simp add: saveDoc_def saveDoc_try_def saveDoc_store_def outputFile_def path_join_def
        normalize_def parent_dir_def is_word_char_def sample_defs world_ops starts_with_def Let_def)

theorem actuation_only_when_configured_witness:
  "lifx_calls (snd (messageHandler (sample_config\<lparr>lifxAccessToken := Str ''{LIFX_ACCESS_TOKEN}''\<rparr>)
      (sample_message (sample_xml ''Completed'' sample_fields)) (sample_world TokenOk))) = []
   \<and> acks (snd (messageHandler (sample_config\<lparr>lifxAccessToken := Str ''{LIFX_ACCESS_TOKEN}''\<rparr>)
      (sample_message (sample_xml ''Completed'' sample_fields)) (sample_world TokenOk))) = 1"
  using actuation_only_when_configured
          [OF placeholder_notification_of sample_eligible placeholder_saveDoc_ok]
  by (simp add: acks_def lifx_calls_def sample_world_def)

section \<open>Custom-field lookup\<close>

lemma find_field_first:
  assumes "\<forall>g \<in> set pre. other_name name g" and "has_name name f"
  shows "find_field name (pre @ f # post) = Inr (Some f)"
  using assms
  by (induction pre) (auto simp add: other_name_def has_name_def split: sum.splits)

lemma find_field_none:
  assumes "\<forall>g \<in> set fs. other_name name g"
  shows "find_field name fs = Inr None"
  using assms
  by (induction fs) (auto simp add: other_name_def split: sum.splits)

lemma field_value_first:
  assumes "customFields_of es = Inr (pre @ f # post)"
    and "\<forall>g \<in> set pre. other_name name g" and "has_name name f"
  shows "field_value name es = idx0 (Value f)"
  using assms by (simp add: field_value_def find_field_first)

lemma field_value_none:
  assumes "customFields_of es = Inr fs" and "\<forall>g \<in> set fs. other_name name g"
  shows "field_value name es = Inr Null"
  using assms by (simp add: field_value_def find_field_none)

text \<open>
  On an envelope that has a list of custom fields, the order number and the light color are
  read by a first-match search of the fields in their order: when a field carries the
  configured name and no field before it does, the result is the first value of that field,
  whatever follows it (a later field with the same name is not looked at); when no field
  carries the name, the result is \<open>null\<close>.
\<close>

lemma custom_field_first_match:
  "(customFields_of es = Inr (pre @ f # post)
      \<and> (\<forall>g \<in> set pre. other_name (envelopeCustomField cfg) g)
      \<and> has_name (envelopeCustomField cfg) f
      \<longrightarrow> getOrderNumber cfg es = idx0 (Value f))
   \<and> (customFields_of es = Inr fs \<and> (\<forall>g \<in> set fs. other_name (envelopeCustomField cfg) g)
      \<longrightarrow> getOrderNumber cfg es = Inr Null)
   \<and> (customFields_of es = Inr (pre' @ f' # post')
      \<and> (\<forall>g \<in> set pre'. other_name (envelopeColorCustomField cfg) g)
      \<and> has_name (envelopeColorCustomField cfg) f'
      \<longrightarrow> getLightColor cfg es = idx0 (Value f'))
   \<and> (customFields_of es = Inr fs' \<and> (\<forall>g \<in> set fs'. other_name (envelopeColorCustomField cfg) g)
      \<longrightarrow> getLightColor cfg es = Inr Null)"
  by (simp add: getOrderNumber_def getLightColor_def field_value_first field_value_none)

lemma custom_field_first_match_sample:
  "getOrderNumber sample_config (sample_status ''Completed'' sample_fields) = Inr (Str ''SO-123/A'')
   \<and> getLightColor sample_config (sample_status ''Completed'' (take 2 sample_fields)) = Inr Null"
proof -
  have a: "customFields_of (sample_status ''Completed'' sample_fields)
        = Inr ([\<lparr>Name = Some [''Team''], Value = Some [''West'']\<rparr>]
             @ \<lparr>Name = Some [''Sales order''], Value = Some [''SO-123/A'']\<rparr>
             # [\<lparr>Name = Some [''Light color''], Value = Some [''green'']\<rparr>,
                \<lparr>Name = Some [''Sales order''], Value = Some [''SO-999'']\<rparr>])"
    by (simp add: customFields_of_def sample_defs)
  have b: "\<forall>g \<in> set [\<lparr>Name = Some [''Team''], Value = Some [''West'']\<rparr>].
             other_name (envelopeCustomField sample_config) g"
    by (simp add: other_name_def sample_config_def)
  have c: "has_name (envelopeCustomField sample_config)
             \<lparr>Name = Some [''Sales order''], Value = Some [''SO-123/A'']\<rparr>"
    by (simp add: has_name_def sample_config_def)
  have d: "customFields_of (sample_status ''Completed'' (take 2 sample_fields))
        = Inr (take 2 sample_fields)"
    by (simp add: customFields_of_def sample_defs)
  have e: "\<forall>g \<in> set (take 2 sample_fields).
             other_name (envelopeColorCustomField sample_config) g"
    by (simp add: other_name_def sample_defs)
  from a b c have "getOrderNumber sample_config (sample_status ''Completed'' sample_fields)
        = idx0 (Value \<lparr>Name = Some [''Sales order''], Value = Some [''SO-123/A'']\<rparr>)"
    using custom_field_first_match
      [of "sample_status ''Completed'' sample_fields"
          "[\<lparr>Name = Some [''Team''], Value = Some [''West'']\<rparr>]"
          "\<lparr>Name = Some [''Sales order''], Value = Some [''SO-123/A'']\<rparr>"
          "[\<lparr>Name = Some [''Light color''], Value = Some [''green'']\<rparr>,
            \<lparr>Name = Some [''Sales order''], Value = Some [''SO-999'']\<rparr>]"
          sample_config]
    by blast
  moreover from d e
  have "getLightColor sample_config (sample_status ''Completed'' (take 2 sample_fields))
        = Inr Null"
    using custom_field_first_match
      [of "sample_status ''Completed'' (take 2 sample_fields)" _ _ _ sample_config _ _ _ _
          "take 2 sample_fields"]
    by blast
  ultimately show ?thesis by simp
qed

text \<open>
  C9 (the code at the failing input). On an envelope without custom fields no field matches,
  but the lookup does not return \<open>null\<close>: the list that \<open>find\<close> is called on is
  \<open>undefined\<close>, and both the order-number and the light-color lookup throw a TypeError.
  The same holds when the \<open>CustomFields\<close> element is missing altogether.
\<close>

theorem lookup_without_custom_fields_throws:
  "getOrderNumber sample_config (sample_status_no_fields ''Completed'') = Inl TypeError
   \<and> getLightColor sample_config (sample_status_no_fields ''Completed'') = Inl TypeError
   \<and> getOrderNumber sample_config
         ((sample_status ''Completed'' [])\<lparr>CustomFields := None\<rparr>) = Inl TypeError"
  by (simp add: getOrderNumber_def getLightColor_def field_value_def customFields_of_def
        sample_status_no_fields_def sample_status_def)

section \<open>Where saveDoc writes\<close>
















section \<open>Exits\<close>

lemma break_value_truthy: "str_includes t ''/break'' \<Longrightarrow> truthy (Str t)"
  by (cases t) simp_all

text \<open>
  C8 (as amended). The startup token check ends the process by \<open>process.exit()\<close> without
  a code, that is with status 0, after printing its instructions: for a missing or
  placeholder client id, for a consent-required answer, and for any other API error. With
  the break test enabled, a test value containing \<open>/break\<close> ends the process with status
  2, which is non-zero and differs from the startup status, after one log line and before
  any directory is made or any file is renamed or written.
\<close>

theorem startup_exits_zero_break_exits_two:
  "(\<not> truthy (clientId cfg) \<or> js_eq (clientId cfg) ''{CLIENT_ID}''
      \<longrightarrow> testToken cfg w = (Exited 0, emit (Log LogNeedConfig) w))
   \<and> (truthy (clientId cfg) \<and> \<not> js_eq (clientId cfg) ''{CLIENT_ID}''
        \<and> checkToken w = TokenApiError code err
      \<longrightarrow> fst (testToken cfg w) = Exited 0
          \<and> trace (snd (testToken cfg w)) = trace w @
               [CheckToken,
                Log (if truthy err \<and> js_eq err ''consent_required''
                     then LogConsentRequired (consent_url cfg)
                     else LogApiProblem code err)])
   \<and> (enableBreakTest cfg \<and> str_includes t ''/break''
      \<longrightarrow> processTest cfg t w = (Exited 2, emit (Log LogBreaking) w)
          \<and> process cfg (Str t) x w = (Exited 2, emit (Log LogBreaking) w)
          \<and> files (snd (process cfg (Str t) x w)) = files w
          \<and> dirs (snd (process cfg (Str t) x w)) = dirs w)"
proof (intro conjI impI)
  assume "\<not> truthy (clientId cfg) \<or> js_eq (clientId cfg) ''{CLIENT_ID}''"
  then show "testToken cfg w = (Exited 0, emit (Log LogNeedConfig) w)"
    by (auto simp add: testToken_def)
next
  assume a: "truthy (clientId cfg) \<and> \<not> js_eq (clientId cfg) ''{CLIENT_ID}''
        \<and> checkToken w = TokenApiError code err"
  then show "fst (testToken cfg w) = Exited 0"
    by (simp add: testToken_def emit_def Let_def)
  from a show "trace (snd (testToken cfg w)) = trace w @
               [CheckToken,
                Log (if truthy err \<and> js_eq err ''consent_required''
                     then LogConsentRequired (consent_url cfg)
                     else LogApiProblem code err)]"
    by (simp add: testToken_def emit_def Let_def)
next
  assume b: "enableBreakTest cfg \<and> str_includes t ''/break''"
  then show pt: "processTest cfg t w = (Exited 2, emit (Log LogBreaking) w)"
    by (simp add: processTest_def)
  from b have "truthy (Str t)" using break_value_truthy by blast
  then show p: "process cfg (Str t) x w = (Exited 2, emit (Log LogBreaking) w)"
    using pt by (simp add: process_def)
  show "files (snd (process cfg (Str t) x w)) = files w"
    by (simp add: p emit_def)
  show "dirs (snd (process cfg (Str t) x w)) = dirs w"
    by (simp add: p emit_def)
qed

theorem startup_exits_zero_break_exits_two_witness:
  "fst (testToken sample_config (sample_world (TokenApiError 400 (Str ''consent_required''))))
     = Exited 0
   \<and> fst (process sample_config (Str ''7/break'') XmlError (sample_world TokenOk)) = Exited 2
   \<and> files (snd (process sample_config (Str ''7/break'') XmlError (sample_world TokenOk)))
       = Map.empty"
proof -
  have a: "truthy (clientId sample_config) \<and> \<not> js_eq (clientId sample_config) ''{CLIENT_ID}''
      \<and> checkToken (sample_world (TokenApiError 400 (Str ''consent_required'')))
          = TokenApiError 400 (Str ''consent_required'')"
    by (simp add: sample_config_def sample_world_def)
  have b: "enableBreakTest sample_config \<and> str_includes ''7/break'' ''/break''"
    by (simp add: sample_config_def starts_with_def)
  have "fst (testToken sample_config
               (sample_world (TokenApiError 400 (Str ''consent_required'')))) = Exited 0"
    using a startup_exits_zero_break_exits_two
            [of sample_config "sample_world (TokenApiError 400 (Str ''consent_required''))"
                400 "Str ''consent_required''"]
    by blast
  moreover
  have "process sample_config (Str ''7/break'') XmlError (sample_world TokenOk)
          = (Exited 2, emit (Log LogBreaking) (sample_world TokenOk))"
    using b startup_exits_zero_break_exits_two
            [of sample_config "sample_world TokenOk" _ _ "''7/break''" XmlError]
    by blast
  ultimately show ?thesis
    by (simp add: emit_def sample_world_def)
qed

text \<open>
  With the placeholder client id, and with a consent-required answer, the startup check
  ends the process with status 0, not with a non-zero status.
\<close>

theorem startup_exit_status_counterexample:
  "fst (testToken (sample_config\<lparr>clientId := Str ''{CLIENT_ID}''\<rparr>) (sample_world TokenOk))
     = Exited 0
   \<and> fst (testToken sample_config (sample_world (TokenApiError 400 (Str ''consent_required''))))
     = Exited 0"
  by (simp add: testToken_def sample_config_def sample_world_def emit_def Let_def)

section \<open>The ring of test files\<close>

lemma digit_char_inj:
  assumes "a < 10" and "b < 10" and "digit_char a = digit_char b"
  shows "a = b"
proof -
  have "\<forall>a < 10. \<forall>b < 10. digit_char a = digit_char b \<longrightarrow> a = b"
    by (simp add: digit_char_def All_less_Suc numeral_eq_Suc)
  with assms show ?thesis by blast
qed


lemma string_of_nat_nonempty: "string_of_nat n \<noteq> []"
  by (subst string_of_nat.simps) simp

lemma string_of_nat_small: "n < 10 \<Longrightarrow> string_of_nat n = [digit_char n]"
  by (subst string_of_nat.simps) simp

lemma string_of_nat_large:
  "\<not> n < 10 \<Longrightarrow> string_of_nat n = string_of_nat (n div 10) @ [digit_char (n mod 10)]"
  by (subst string_of_nat.simps) simp

lemma string_of_nat_inj: "string_of_nat m = string_of_nat n \<Longrightarrow> m = n"
proof (induction m arbitrary: n rule: string_of_nat.induct)
  case (1 m)
  show ?case
  proof (cases "m < 10")
    case m: True
    show ?thesis
    proof (cases "n < 10")
      case True
      with m "1.prems" show ?thesis
        by (simp add: string_of_nat_small digit_char_inj)
    next
      case False
      with m "1.prems" show ?thesis
        using string_of_nat_nonempty [of "n div 10"] string_of_nat_nonempty [of "m div 10"]
        by (auto simp add: string_of_nat_small string_of_nat_large)
    qed
  next
    case m: False
    show ?thesis
    proof (cases "n < 10")
      case True
      with m "1.prems" show ?thesis
        using string_of_nat_nonempty [of "n div 10"] string_of_nat_nonempty [of "m div 10"]
        by (auto simp add: string_of_nat_small string_of_nat_large)
    next
      case False
      with m "1.prems" have "string_of_nat (m div 10) = string_of_nat (n div 10)"
          and d: "digit_char (m mod 10) = digit_char (n mod 10)"
        by (simp_all add: string_of_nat_large)
      with m "1.IH" have "m div 10 = n div 10" by simp
      moreover from d have "m mod 10 = n mod 10"
        by (simp add: digit_char_inj)
      ultimately show ?thesis
        by (metis div_mult_mod_eq)
    qed
  qed
qed

lemma test_file_inj: "test_file i = test_file j \<Longrightarrow> i = j"
  by (simp add: test_file_def string_of_nat_inj)

lemma string_of_nat_digits: "set (string_of_nat n) \<subseteq> set ''0123456789''"
proof (induction n rule: string_of_nat.induct)
  case (1 n)
  have d: "\<And>k. k < 10 \<Longrightarrow> digit_char k \<in> set ''0123456789''"
    unfolding digit_char_def by (rule nth_mem) simp
  show ?case
  proof (cases "n < 10")
    case True
    then show ?thesis using d [of n] by (simp add: string_of_nat_small)
  next
    case False
    with "1.IH" have "set (string_of_nat (n div 10)) \<subseteq> set ''0123456789''" by simp
    moreover have "digit_char (n mod 10) \<in> set ''0123456789''" using d [of "n mod 10"] by simp
    ultimately show ?thesis using False by (simp add: string_of_nat_large)
  qed
qed

lemma test_file_simple: "simple_name (test_file i)"
proof -
  have "CHR ''/'' \<notin> set (string_of_nat i)"
    using string_of_nat_digits [of i] by auto
  then show ?thesis
    by (simp add: simple_name_def test_file_def)
qed

lemma test_path_eq [simp]: "test_path dir i = test_path dir j \<longleftrightarrow> i = j"
  using test_file_inj path_join_inj [OF test_file_simple test_file_simple]
  by (auto simp add: test_path_def)













end
